theory Spec2Isabelle
  imports Complex_Main "HOL-Library.Sublist" "HOL-Library.Multiset"
begin

section \<open>Data model of the chart component (src/components/chartView.tsx)\<close>

text \<open>
  Numbers: a timestamp is the result of \<open>Date.getTime()\<close>, an integral number of epoch
  milliseconds, so it is an \<open>int\<close>. Prices, pixel widths and marker positions are
  JavaScript numbers that need not be integral; they are modelled as \<open>real\<close>, that is
  with exact arithmetic instead of IEEE doubles, and \<open>NaN\<close> is not a value of the
  model.
\<close>

record SpotPrice =
  DateTime :: "string option"
  PriceNoTax :: "real option"
  PriceWithTax :: "real option"
  Rank :: "real option"

record ChartDatum =
  label :: string
  fullLabel :: string
  price :: real
  timestamp :: int
  dayKey :: string
  fill :: "string option"

text \<open>An element of \<open>dayChangeMarkers\<close>: the fields \<open>x\<close> and \<open>label\<close> of the source.\<close>

record DayMarker =
  marker_x :: real
  marker_label :: string

definition PRICE_COLORS_low :: string where
  "PRICE_COLORS_low = ''#16a34a''"

definition PRICE_COLORS_mid :: string where
  "PRICE_COLORS_mid = ''#f59e0b''"

definition PRICE_COLORS_high :: string where
  "PRICE_COLORS_high = ''#ef4444''"

section \<open>Interval estimator\<close>

text \<open>\<open>Math.round\<close>: the nearest integer, a tie going up.\<close>

definition Math_round :: "real \<Rightarrow> int" where
  "Math_round v = \<lfloor>v + 1 / 2\<rfloor>"

text \<open>
  The positive successive differences: \<open>chartData.slice(1).map((item, index) =>
  item.timestamp - chartData[index].timestamp).filter((diff) => diff > 0)\<close>. Element
  \<open>index\<close> of the slice is element \<open>index + 1\<close> of \<open>chartData\<close>, so
  \<open>chartData[index]\<close> is the point before \<open>item\<close>.
\<close>

definition positiveDiffs :: "ChartDatum list \<Rightarrow> int list" where
  "positiveDiffs chartData =
     filter (\<lambda>diff. diff > 0)
       (map2 (\<lambda>item prev. timestamp item - timestamp prev) (tl chartData) chartData)"

definition stepMinutes :: "ChartDatum list \<Rightarrow> int" where
  "stepMinutes chartData =
     (if length chartData < 2 then 60
      else let diffs = positiveDiffs chartData in
        if diffs = [] then 60
        else let sorted = sort diffs;
                 median = sorted ! (length sorted div 2);
                 minutes = Math_round (real_of_int median / 60000)
             in if minutes = 0 then 60 else minutes)"

definition pointsPerHour :: "int \<Rightarrow> int" where
  "pointsPerHour stepMin = max 1 (Math_round (60 / real_of_int stepMin))"


text \<open>
  The reading of the specification's "lower-middle element for even counts": element
  \<open>(n - 1) div 2\<close> of the \<open>n\<close> sorted positive differences, rounded as the code
  rounds. It is compared with \<open>stepMinutes\<close> below.
\<close>

definition lowerMedianMinutes :: "ChartDatum list \<Rightarrow> int" where
  "lowerMedianMinutes chartData =
     (let sorted = sort (positiveDiffs chartData)
      in Math_round (real_of_int (sorted ! ((length sorted - 1) div 2)) / 60000))"

section \<open>Visibility filter, now marker, layout sizer\<close>

definition visibleData :: "bool \<Rightarrow> int \<Rightarrow> int \<Rightarrow> ChartDatum list \<Rightarrow> ChartDatum list" where
  "visibleData showPast now stepMillis coloredData =
     (if showPast then coloredData
      else filter (\<lambda>entry. now < timestamp entry + stepMillis) coloredData)"

definition nowLineTimestamp :: "int \<Rightarrow> ChartDatum list \<Rightarrow> int option" where
  "nowLineTimestamp now visible =
     (if visible = [] then None
      else let mn = timestamp (hd visible); mx = timestamp (last visible)
           in if now < mn \<or> now > mx then None else Some now)"

text \<open>
  \<open>containerWidth\<close> is \<open>number | null\<close>: \<open>None\<close> is \<open>null\<close>, and
  \<open>!containerWidth\<close> holds for \<open>null\<close> and for \<open>0\<close>. The result \<open>None\<close> is
  \<open>undefined\<close>: no bar width is passed to the chart library.
\<close>

definition barSize :: "real option \<Rightarrow> nat \<Rightarrow> int option" where
  "barSize containerWidth visibleLength =
     (case containerWidth of
        None \<Rightarrow> None
      | Some w \<Rightarrow>
          if w = 0 \<or> visibleLength = 0 then None
          else let available = max 0 (w - 16);
                   perBar = available / real visibleLength
               in Some (max 1 \<lfloor>perBar * 0.92\<rfloor>))"

section \<open>The platform: \<open>Date\<close> and \<open>Intl\<close>\<close>

text \<open>
  What the component gets from the JavaScript runtime and not from this repository. The
  string parser of \<open>new Date(s)\<close>, the calendar fields of a local date and the
  \<open>Intl\<close> formatters are parameters; an instant is passed as its epoch milliseconds.
  \<open>Date_getTime s = None\<close> stands for \<open>Number.isNaN(new Date(s).getTime())\<close>.
  The clock-hour operations that the axis ticks use are defined below for a zone with a
  fixed offset from UTC, their argument \<open>off\<close>: local time is UTC plus \<open>off\<close>
  milliseconds. Daylight-saving transitions inside the charted range are outside the
  model.
\<close>

record Platform =
  Date_getTime :: "string \<Rightarrow> int option"
  getFullYear :: "int \<Rightarrow> nat"
  getMonth :: "int \<Rightarrow> nat"
  getDate :: "int \<Rightarrow> nat"
  timeFormatter :: "int \<Rightarrow> string"
  weekdayFormatter :: "int \<Rightarrow> string"
  weekdayShortFormatter :: "int \<Rightarrow> string"
  tooltipTimeFormatter :: "int \<Rightarrow> string"

definition msPerHour :: int where
  "msPerHour = 3600000"

definition msPerDay :: int where
  "msPerDay = 24 * msPerHour"

text \<open>\<open>date.getHours()\<close>: the hour of the day, 0 to 23, in local time.\<close>

definition getHours :: "int \<Rightarrow> int \<Rightarrow> int" where
  "getHours off t = ((t + off) div msPerHour) mod 24"




text \<open>
  Strings are byte strings; \<open>toUpperCase\<close> and \<open>toLowerCase\<close> are modelled on ASCII
  letters and leave every other character as it is.
\<close>

definition toUpperChar :: "char \<Rightarrow> char" where
  "toUpperChar c =
     (let n = (of_char c :: nat) in if 97 \<le> n \<and> n \<le> 122 then char_of (n - 32) else c)"


definition toUpperCase :: "string \<Rightarrow> string" where
  "toUpperCase s = map toUpperChar s"


text \<open>\<open>String(n)\<close> for a natural number: its decimal digits.\<close>

definition digitChar :: "nat \<Rightarrow> char" where
  "digitChar d = char_of (48 + d)"

fun String_nat :: "nat \<Rightarrow> string" where
  "String_nat n = (if n < 10 then [digitChar n] else String_nat (n div 10) @ [digitChar (n mod 10)])"

text \<open>\<open>s.padStart(2, "0")\<close>\<close>

definition padStart2 :: "string \<Rightarrow> string" where
  "padStart2 s = replicate (2 - length s) (CHR ''0'') @ s"

definition capitalize :: "string \<Rightarrow> string" where
  "capitalize weekday =
     (if length weekday > 0 then toUpperCase [hd weekday] @ tl weekday else [])"

definition formatDayKey :: "Platform \<Rightarrow> int \<Rightarrow> string" where
  "formatDayKey env date =
     (let year = getFullYear env date;
          month = padStart2 (String_nat (getMonth env date + 1));
          day = padStart2 (String_nat (getDate env date))
      in String_nat year @ ''-'' @ month @ ''-'' @ day)"

definition formatTooltipLabel :: "Platform \<Rightarrow> int \<Rightarrow> string" where
  "formatTooltipLabel env date =
     (let weekday = weekdayFormatter env date;
          capitalized = capitalize weekday;
          day = getDate env date;
          month = getMonth env date + 1;
          time = tooltipTimeFormatter env date
      in capitalized @ '' '' @ String_nat day @ ''.'' @ String_nat month @ '' '' @ time)"

definition formatDayLineLabel :: "Platform \<Rightarrow> int \<Rightarrow> string" where
  "formatDayLineLabel env date =
     (let weekday = weekdayShortFormatter env date;
          capitalized = capitalize weekday;
          day = getDate env date;
          month = getMonth env date + 1
      in capitalized @ '' '' @ String_nat day @ ''.'' @ String_nat month)"

section \<open>Normalizer\<close>

text \<open>
  One record of \<open>data\<close>: \<open>None\<close> is the \<open>null\<close> that the following
  \<open>filter(Boolean)\<close> removes. \<open>!item?.DateTime\<close> holds for a missing and for an
  empty string.
\<close>

definition normalize :: "Platform \<Rightarrow> bool \<Rightarrow> real \<Rightarrow> SpotPrice \<Rightarrow> ChartDatum option" where
  "normalize env useTax valueMultiplier item =
     (case DateTime item of
        None \<Rightarrow> None
      | Some s \<Rightarrow>
          if s = [] then None
          else (case (if useTax then PriceWithTax item else PriceNoTax item) of
                  None \<Rightarrow> None
                | Some rawPrice \<Rightarrow>
                    (case Date_getTime env s of
                       None \<Rightarrow> None
                     | Some t \<Rightarrow>
                         Some \<lparr>label = timeFormatter env t,
                               fullLabel = formatTooltipLabel env t,
                               price = rawPrice * valueMultiplier,
                               timestamp = t,
                               dayKey = formatDayKey env t,
                               fill = None\<rparr>)))"

text \<open>
  \<open>Array.prototype.sort\<close> is stable, and so is \<open>sort_key\<close>: the comparator
  \<open>a.timestamp - b.timestamp\<close> orders by timestamp and keeps equal ones in place.
\<close>

definition chartData :: "Platform \<Rightarrow> bool \<Rightarrow> real \<Rightarrow> SpotPrice list \<Rightarrow> ChartDatum list" where
  "chartData env useTax valueMultiplier data =
     sort_key timestamp (List.map_filter (normalize env useTax valueMultiplier) data)"

section \<open>Day ranker and colorer\<close>

text \<open>
  \<open>grouped\<close> and \<open>dayMeta\<close> are \<open>Map\<close>s keyed by day key, \<open>ranks\<close> a \<open>Map\<close>
  keyed by timestamp. Each day's entry of \<open>dayMeta\<close> is computed from that day's
  bucket alone, so the iteration order of \<open>grouped.forEach\<close> does not matter.
\<close>

definition groupedAdd :: "(string \<rightharpoonup> ChartDatum list) \<Rightarrow> ChartDatum \<Rightarrow> (string \<rightharpoonup> ChartDatum list)" where
  "groupedAdd grouped point =
     (let bucket = (case grouped (dayKey point) of None \<Rightarrow> [] | Some b \<Rightarrow> b)
      in grouped(dayKey point \<mapsto> bucket @ [point]))"

definition groupByDay :: "ChartDatum list \<Rightarrow> (string \<rightharpoonup> ChartDatum list)" where
  "groupByDay points = fold (\<lambda>point grouped. groupedAdd grouped point) points Map.empty"

record DayMeta =
  ranks :: "int \<rightharpoonup> nat"
  greenLimit :: int
  yellowLimit :: int

text \<open>\<open>sorted.forEach((point, index) => ranks.set(point.timestamp, index))\<close>, from \<open>index\<close> on.\<close>

fun setRanks :: "ChartDatum list \<Rightarrow> nat \<Rightarrow> (int \<rightharpoonup> nat) \<Rightarrow> (int \<rightharpoonup> nat)" where
  "setRanks [] index rks = rks"
| "setRanks (point # rest) index rks = setRanks rest (Suc index) (rks(timestamp point \<mapsto> index))"

definition dayMetaOf :: "int \<Rightarrow> ChartDatum list \<Rightarrow> DayMeta" where
  "dayMetaOf pph points =
     (let sorted = sort_key price points
      in \<lparr>ranks = setRanks sorted 0 Map.empty,
          greenLimit = min (int (length points)) (6 * pph),
          yellowLimit = min (int (length points)) (12 * pph)\<rparr>)"

definition dayMeta :: "int \<Rightarrow> (string \<rightharpoonup> ChartDatum list) \<Rightarrow> (string \<rightharpoonup> DayMeta)" where
  "dayMeta pph grouped = (\<lambda>key. map_option (dayMetaOf pph) (grouped key))"

definition colorPoint :: "(string \<rightharpoonup> DayMeta) \<Rightarrow> ChartDatum \<Rightarrow> ChartDatum" where
  "colorPoint metas point =
     (let meta = metas (dayKey point);
          rank = (case meta of
                    None \<Rightarrow> 0
                  | Some m \<Rightarrow> (case ranks m (timestamp point) of None \<Rightarrow> 0 | Some r \<Rightarrow> r));
          colour =
            (if int rank < (case meta of None \<Rightarrow> 0 | Some m \<Rightarrow> greenLimit m) then PRICE_COLORS_low
             else if int rank < (case meta of None \<Rightarrow> 0 | Some m \<Rightarrow> yellowLimit m) then PRICE_COLORS_mid
             else PRICE_COLORS_high)
      in point\<lparr>fill := Some colour\<rparr>)"

definition coloredData :: "int \<Rightarrow> ChartDatum list \<Rightarrow> ChartDatum list" where
  "coloredData pph points =
     (if points = [] then []
      else map (colorPoint (dayMeta pph (groupByDay points))) points)"

section \<open>Annotator\<close>




text \<open>
  The \<open>for\<close> loop of \<open>dayChangeMarkers\<close> from index 1 on, \<open>lastDay\<close> being the
  day key that the walk last saw.
\<close>

fun markersLoop :: "Platform \<Rightarrow> real \<Rightarrow> string \<Rightarrow> ChartDatum list \<Rightarrow> DayMarker list" where
  "markersLoop env halfStepMs lastDay [] = []"
| "markersLoop env halfStepMs lastDay (point # rest) =
     (if dayKey point \<noteq> lastDay
      then (let boundaryTimestamp = timestamp point
            in \<lparr>marker_x = real_of_int boundaryTimestamp - halfStepMs,
                marker_label = formatDayLineLabel env boundaryTimestamp\<rparr>
               # markersLoop env halfStepMs (dayKey point) rest)
      else markersLoop env halfStepMs lastDay rest)"

definition dayChangeMarkers :: "Platform \<Rightarrow> int \<Rightarrow> ChartDatum list \<Rightarrow> DayMarker list" where
  "dayChangeMarkers env stepMillis visible =
     (case visible of
        [] \<Rightarrow> []
      | first # rest \<Rightarrow> markersLoop env (real_of_int stepMillis / 2) (dayKey first) rest)"

section \<open>The proxy route (src/app/api/spot/route.ts)\<close>


definition BASE_URL :: string where
  "BASE_URL = ''https://api.spot-hinta.fi''"




















section \<open>Notions used in the statements\<close>

text \<open>
  Two notions for stating what the colorer does: the number of points of a sequence that
  are cheaper than a given point, and the colour that the code gives to a rank under a
  low/mid limit \<open>green\<close> and a mid/high limit \<open>yellow\<close>.
\<close>

definition cheaperCount :: "ChartDatum list \<Rightarrow> ChartDatum \<Rightarrow> nat" where
  "cheaperCount points p = length (filter (\<lambda>q. price q < price p) points)"

definition tierOf :: "int \<Rightarrow> int \<Rightarrow> nat \<Rightarrow> string" where
  "tierOf green yellow rank =
     (if int rank < green then PRICE_COLORS_low
      else if int rank < yellow then PRICE_COLORS_mid
      else PRICE_COLORS_high)"

text \<open>
  The price field that the normalizer selects,
  \<open>useTax ? item.PriceWithTax : item.PriceNoTax\<close>.
\<close>

definition selectedPrice :: "bool \<Rightarrow> SpotPrice \<Rightarrow> real option" where
  "selectedPrice useTax item = (if useTax then PriceWithTax item else PriceNoTax item)"





section \<open>Example data\<close>

text \<open>A point that carries nothing but its timestamp, for the concrete instances below.\<close>

definition pointAt :: "int \<Rightarrow> ChartDatum" where
  "pointAt t = \<lparr>label = [], fullLabel = [], price = 0, timestamp = t, dayKey = [], fill = None\<rparr>"

text \<open>
  A platform for the concrete instances, good for the instants of January 2024 in UTC:
  the calendar fields of such an instant, Finnish weekday names, clock times, and a
  parser that knows four timestamps.
\<close>

definition finnishWeekdaysShort :: "string list" where
  "finnishWeekdaysShort = [''ma'', ''ti'', ''ke'', ''to'', ''pe'', ''la'', ''su'']"

definition finnishWeekdays :: "string list" where
  "finnishWeekdays =
     [''maanantai'', ''tiistai'', ''keskiviikko'', ''torstai'', ''perjantai'', ''lauantai'',
      ''sunnuntai'']"

definition weekdayIndex :: "int \<Rightarrow> nat" where
  "weekdayIndex t = nat ((t div msPerDay + 3) mod 7)"

definition clock :: "string \<Rightarrow> int \<Rightarrow> string" where
  "clock sep t =
     padStart2 (String_nat (nat (getHours 0 t))) @ sep
       @ padStart2 (String_nat (nat ((t mod msPerHour) div 60000)))"

definition january2024 :: Platform where
  "january2024 =
     \<lparr>Date_getTime = map_of
        [(''2024-01-15T22:00:00Z'', 1705356000000),
         (''2024-01-15T23:00:00Z'', 1705359600000),
         (''2024-01-16T00:00:00Z'', 1705363200000),
         (''2024-01-16T01:00:00Z'', 1705366800000)],
      getFullYear = (\<lambda>t. 2024),
      getMonth = (\<lambda>t. 0),
      getDate = (\<lambda>t. nat (t div msPerDay - 19722)),
      timeFormatter = clock '':'',
      weekdayFormatter = (\<lambda>t. finnishWeekdays ! weekdayIndex t),
      weekdayShortFormatter = (\<lambda>t. finnishWeekdaysShort ! weekdayIndex t),
      tooltipTimeFormatter = clock ''.''\<rparr>"

text \<open>
  The 24 hourly points of one day, from \<open>start\<close> on; the price of point \<open>i\<close> is
  \<open>7 * i mod 24\<close>, so the prices are the numbers 0 to 23 in a mixed order.
\<close>

definition hourlyDay :: "string \<Rightarrow> int \<Rightarrow> ChartDatum list" where
  "hourlyDay key start =
     map (\<lambda>i. \<lparr>label = [], fullLabel = [], price = real (7 * i mod 24),
               timestamp = start + int i * msPerHour,
               dayKey = key, fill = None\<rparr>) [0..<24]"

text \<open>
  Five raw records, out of order, of which the second has no timestamp, the third no
  price with tax and the fourth a timestamp that does not parse.
\<close>

definition exampleRecords :: "SpotPrice list" where
  "exampleRecords =
     [\<lparr>DateTime = Some ''2024-01-16T00:00:00Z'', PriceNoTax = Some 0.05,
        PriceWithTax = Some 0.062, Rank = Some 3\<rparr>,
      \<lparr>DateTime = None, PriceNoTax = Some 0.01,
        PriceWithTax = Some 0.0124, Rank = None\<rparr>,
      \<lparr>DateTime = Some ''2024-01-15T23:00:00Z'', PriceNoTax = Some 0.04,
        PriceWithTax = None, Rank = Some 2\<rparr>,
      \<lparr>DateTime = Some ''yesterday'', PriceNoTax = Some 0.02,
        PriceWithTax = Some 0.0248, Rank = None\<rparr>,
      \<lparr>DateTime = Some ''2024-01-15T22:00:00Z'', PriceNoTax = Some 0.03,
        PriceWithTax = Some 0.0372, Rank = Some 1\<rparr>]"




section \<open>Visibility filter\<close>

text \<open>
  C4. With \<open>showPast = true\<close> the visibility filter returns its input unchanged. With
  \<open>showPast = false\<close> it returns exactly the points with
  \<open>timestamp + stepMs > now\<close>, in their original order and each point as it was (the
  result is a \<open>filter\<close> of the input, hence a subsequence of it), so no returned point
  has \<open>timestamp + stepMs \<le> now\<close>.
\<close>

theorem visibleData_filter:
  "visibleData True now stepMillis points = points \<and>
   visibleData False now stepMillis points = filter (\<lambda>p. timestamp p + stepMillis > now) points \<and>
   subseq (visibleData False now stepMillis points) points \<and>
   (\<forall>p \<in> set (visibleData False now stepMillis points). \<not> timestamp p + stepMillis \<le> now)"
  by (auto simp: visibleData_def)

theorem visibleData_filter_witness:
  "visibleData False 100 10 [pointAt 50, pointAt 90, pointAt 95, pointAt 120] = [pointAt 95, pointAt 120] \<and>
   pointAt 95 \<in> set (visibleData False 100 10 [pointAt 50, pointAt 90, pointAt 95, pointAt 120]) \<and>
   \<not> timestamp (pointAt 95) + 10 \<le> (100::int) \<and>
   visibleData True 100 10 [pointAt 50, pointAt 90, pointAt 95, pointAt 120]
     = [pointAt 50, pointAt 90, pointAt 95, pointAt 120]"
  using visibleData_filter [of 100 10 "[pointAt 50, pointAt 90, pointAt 95, pointAt 120]"]
  by (simp add: pointAt_def)

section \<open>Now marker\<close>

text \<open>
  C7. For an empty visible sequence there is no now marker. For a non-empty one the
  marker is present, and then equal to \<open>now\<close>, exactly when \<open>now\<close> lies between the
  first and the last visible timestamp, both ends included; it is absent exactly when
  \<open>now\<close> precedes the first or follows the last. The result is an optional value, so
  there is never more than one marker.
\<close>

theorem nowLineTimestamp_inclusive:
  "nowLineTimestamp now [] = None \<and>
   (visible \<noteq> [] \<longrightarrow>
      (nowLineTimestamp now visible = Some now
         \<longleftrightarrow> timestamp (hd visible) \<le> now \<and> now \<le> timestamp (last visible)) \<and>
      (nowLineTimestamp now visible = None
         \<longleftrightarrow> now < timestamp (hd visible) \<or> timestamp (last visible) < now))"
  by (auto simp: nowLineTimestamp_def Let_def)

theorem nowLineTimestamp_inclusive_witness:
  "[pointAt 100, pointAt 200] \<noteq> [] \<and>
   nowLineTimestamp 100 [pointAt 100, pointAt 200] = Some 100 \<and>
   nowLineTimestamp 200 [pointAt 100, pointAt 200] = Some 200 \<and>
   nowLineTimestamp 99 [pointAt 100, pointAt 200] = None \<and>
   nowLineTimestamp 201 [pointAt 100, pointAt 200] = None"
  using nowLineTimestamp_inclusive [of 100 "[pointAt 100, pointAt 200]"]
    nowLineTimestamp_inclusive [of 200 "[pointAt 100, pointAt 200]"]
    nowLineTimestamp_inclusive [of 99 "[pointAt 100, pointAt 200]"]
    nowLineTimestamp_inclusive [of 201 "[pointAt 100, pointAt 200]"]
  by (simp add: pointAt_def)

section \<open>Layout sizer\<close>

text \<open>
  The clamp at 0 of the usable width is absorbed by the clamp at 1 of the result: below
  16 pixels both sides are 1.
\<close>

lemma barSize_clamp:
  fixes w :: real
  assumes "0 < n"
  shows "max 1 \<lfloor>max 0 (w - 16) / real n * 0.92\<rfloor> = max 1 \<lfloor>(w - 16) / real n * 0.92\<rfloor>"
proof (cases "16 \<le> w")
  case True
  then show ?thesis by (simp add: max_def)
next
  case False
  then have "(w - 16) / real n * 0.92 < 0"
    using assms by (simp add: divide_neg_pos mult_neg_pos)
  then have "\<lfloor>(w - 16) / real n * 0.92\<rfloor> \<le> 0"
    by (simp add: floor_le_iff)
  with False show ?thesis by (simp add: max_def)
qed

text \<open>
  C8. For a positive container width \<open>w\<close> and a positive number \<open>n\<close> of visible
  points the bar width is \<open>floor(((w - 16) / n) * 0.92)\<close>, and 1 where that is less
  than 1; for \<open>w = 1000\<close> and \<open>n = 24\<close> it is 37. For an unknown or zero width,
  or for no visible point, no bar width is produced; a bar width that is produced is at
  least 1. (Arithmetic is exact, see the data model.)
\<close>

theorem barSize_formula:
  "(0 < w \<and> 0 < n \<longrightarrow> barSize (Some w) n = Some (max 1 \<lfloor>((w - 16) / real n) * 0.92\<rfloor>)) \<and>
   barSize (Some 1000) 24 = Some 37 \<and>
   barSize None n = None \<and> barSize (Some 0) n = None \<and> barSize cw 0 = None \<and>
   (\<forall>b. barSize cw n = Some b \<longrightarrow> 1 \<le> b)"
proof -
  have "barSize (Some w) n = Some (max 1 \<lfloor>((w - 16) / real n) * 0.92\<rfloor>)" if "0 < w" "0 < n"
    using that barSize_clamp[of n w] by (simp add: barSize_def Let_def)
  moreover have "barSize (Some 1000) 24 = Some 37"
    by (simp add: barSize_def)
  moreover have "barSize None n = None" "barSize (Some 0) n = None" "barSize cw 0 = None"
    by (simp_all add: barSize_def split: option.splits)
  moreover have "1 \<le> b" if "barSize cw n = Some b" for b
    using that by (auto simp: barSize_def Let_def split: option.splits if_splits)
  ultimately show ?thesis by blast
qed

theorem barSize_formula_witness:
  "(0::real) < 100 \<and> (0::nat) < 8 \<and> barSize (Some 100) 8 = Some 9 \<and>
   barSize (Some 10) 8 = Some 1 \<and> barSize (Some 0) 8 = None \<and> barSize None 8 = None \<and>
   barSize (Some 100) 0 = None"
  using barSize_formula [of 100 8 "Some 100"] barSize_formula [of 10 8 "Some 10"]
  by (simp add: barSize_def)

section \<open>Interval estimator: the median and its rounding\<close>

text \<open>
  In a sorted list, fewer than \<open>k + 1\<close> elements are below element \<open>k\<close> and more
  than \<open>k\<close> are at most element \<open>k\<close>.
\<close>

lemma sorted_nth_filter_less:
  fixes xs :: "int list"
  assumes "sorted xs" "k < length xs"
  shows "length (filter (\<lambda>x. x < xs ! k) xs) \<le> k"
proof -
  have "filter (\<lambda>x. x < xs ! k) (drop k xs) = []"
  proof -
    have "\<not> (xs ! (k + i) < xs ! k)" if "i < length xs - k" for i
    proof -
      from that have "k + i < length xs" by linarith
      with sorted_nth_mono[OF assms(1), of k "k + i"] show ?thesis by simp
    qed
    then show ?thesis by (auto simp: filter_empty_conv in_set_conv_nth)
  qed
  then have "filter (\<lambda>x. x < xs ! k) xs = filter (\<lambda>x. x < xs ! k) (take k xs)"
    by (metis append_take_drop_id filter_append append_Nil2)
  moreover have "length (filter (\<lambda>x. x < xs ! k) (take k xs)) \<le> length (take k xs)"
    by (rule length_filter_le)
  ultimately show ?thesis by simp
qed

lemma sorted_nth_filter_le:
  fixes xs :: "int list"
  assumes "sorted xs" "k < length xs"
  shows "k < length (filter (\<lambda>x. x \<le> xs ! k) xs)"
proof -
  have "filter (\<lambda>x. x \<le> xs ! k) (take (Suc k) xs) = take (Suc k) xs"
    using assms by (auto simp: filter_id_conv in_set_conv_nth sorted_iff_nth_mono)
  moreover have "length (filter (\<lambda>x. x \<le> xs ! k) xs) \<ge> length (filter (\<lambda>x. x \<le> xs ! k) (take (Suc k) xs))"
    by (metis append_take_drop_id filter_append length_append le_add1)
  ultimately show ?thesis using assms by simp
qed

lemma length_filter_sort:
  fixes xs :: "int list"
  shows "length (filter P (sort xs)) = length (filter P xs)"
  by (simp add: filter_sort)

lemma Math_round_bounds:
  "60000 * Math_round (real_of_int d / 60000) - 30000 \<le> d \<and>
   d < 60000 * Math_round (real_of_int d / 60000) + 30000"
proof -
  have "real_of_int d / 60000 + 1 / 2 = real_of_int (d + 30000) / real_of_int 60000"
    by (simp add: field_simps)
  then have eq: "Math_round (real_of_int d / 60000) = (d + 30000) div 60000"
    unfolding Math_round_def by (simp only: floor_divide_of_int_eq)
  have "(d + 30000) mod 60000 \<ge> 0" "(d + 30000) mod 60000 < 60000" by simp_all
  moreover have "60000 * ((d + 30000) div 60000) + (d + 30000) mod 60000 = d + 30000"
    by (rule mult_div_mod_eq)
  ultimately show ?thesis unfolding eq by linarith
qed




lemma median_in_diffs:
  assumes "ds \<noteq> []"
  shows "sort ds ! (length ds div 2) \<in> set (ds :: int list)"
proof -
  have "length ds div 2 < length (sort ds)" using assms by simp
  then have "sort ds ! (length ds div 2) \<in> set (sort ds)" by (rule nth_mem)
  then show ?thesis by simp
qed

lemma positiveDiffs_short: "length cd < 2 \<Longrightarrow> positiveDiffs cd = []"
  by (cases cd; cases "tl cd") (auto simp: positiveDiffs_def)

lemma stepMinutes_eq:
  "stepMinutes cd =
     (if positiveDiffs cd = [] then 60
      else let m = Math_round (real_of_int (sort (positiveDiffs cd) ! (length (positiveDiffs cd) div 2)) / 60000)
           in if m = 0 then 60 else m)"
  using positiveDiffs_short[of cd] by (simp add: stepMinutes_def Let_def)


lemma map2_tl_nth:
  "map2 f (tl xs) xs = map (\<lambda>i. f (xs ! Suc i) (xs ! i)) [0..<length xs - 1]"
  by (rule nth_equalityI) (simp_all add: nth_tl)

lemma positiveDiffs_nth:
  "positiveDiffs cd =
     filter (\<lambda>d. 0 < d) (map (\<lambda>i. timestamp (cd ! Suc i) - timestamp (cd ! i)) [0..<length cd - 1])"
  unfolding positiveDiffs_def by (simp only: map2_tl_nth)

text \<open>
  C1, as the specification states it, fails in two places. For an even number of
  positive differences the code takes element \<open>n div 2\<close> of the sorted differences,
  the upper of the two middle ones: three points at 0, 1 and 4 minutes have the
  differences 1 and 3 minutes; the lower-middle one would give 1, the code gives 3. And
  a median that rounds to 0 minutes is not returned: two points 10 seconds apart give
  60.
\<close>

theorem stepMinutes_upper_median_counterexample:
  "stepMinutes [pointAt 0, pointAt 60000, pointAt 240000] = 3 \<and>
   lowerMedianMinutes [pointAt 0, pointAt 60000, pointAt 240000] = 1 \<and>
   stepMinutes [pointAt 0, pointAt 10000] = 60 \<and>
   lowerMedianMinutes [pointAt 0, pointAt 10000] = 0"
  by (simp add: stepMinutes_def lowerMedianMinutes_def positiveDiffs_def pointAt_def Math_round_def)

text \<open>
  C1, amended. The positive differences are those of consecutive points. With fewer than
  2 points, or with no positive difference, the estimator returns 60. Otherwise it takes
  \<open>d\<close>, element \<open>n div 2\<close> of the \<open>n\<close> sorted positive differences (the middle
  one, and the upper-middle one for an even \<open>n\<close>): at most \<open>n div 2\<close> differences
  are smaller than \<open>d\<close> and more than \<open>n div 2\<close> are at most \<open>d\<close>. It rounds
  \<open>d\<close> to the nearest whole minute \<open>m\<close>, a tie going up, and returns \<open>m\<close>,
  except that it returns 60 when \<open>m\<close> is 0. This holds for every point sequence,
  sorted or not.
\<close>

theorem stepMinutes_upper_median:
  "positiveDiffs cd =
     filter (\<lambda>d. 0 < d) (map (\<lambda>i. timestamp (cd ! Suc i) - timestamp (cd ! i)) [0..<length cd - 1]) \<and>
   (length cd < 2 \<or> positiveDiffs cd = [] \<longrightarrow> stepMinutes cd = 60) \<and>
   (positiveDiffs cd \<noteq> [] \<longrightarrow>
      (let ds = positiveDiffs cd;
           d = sort ds ! (length ds div 2);
           m = Math_round (real_of_int d / 60000)
       in d \<in> set ds \<and>
          length (filter (\<lambda>x. x < d) ds) \<le> length ds div 2 \<and>
          length ds div 2 < length (filter (\<lambda>x. x \<le> d) ds) \<and>
          60000 * m - 30000 \<le> d \<and> d < 60000 * m + 30000 \<and>
          stepMinutes cd = (if m = 0 then 60 else m)))"
proof -
  let ?ds = "positiveDiffs cd"
  let ?k = "length ?ds div 2"
  let ?d = "sort ?ds ! ?k"
  have short: "length cd < 2 \<or> ?ds = [] \<longrightarrow> stepMinutes cd = 60"
    using positiveDiffs_short[of cd] by (auto simp: stepMinutes_eq)
  have main: "?d \<in> set ?ds \<and>
      length (filter (\<lambda>x. x < ?d) ?ds) \<le> ?k \<and> ?k < length (filter (\<lambda>x. x \<le> ?d) ?ds) \<and>
      60000 * Math_round (real_of_int ?d / 60000) - 30000 \<le> ?d \<and>
      ?d < 60000 * Math_round (real_of_int ?d / 60000) + 30000 \<and>
      stepMinutes cd = (if Math_round (real_of_int ?d / 60000) = 0 then 60
                        else Math_round (real_of_int ?d / 60000))"
    if ne: "?ds \<noteq> []"
  proof -
    have k: "?k < length (sort ?ds)" using ne by simp
    have "length (filter (\<lambda>x. x < ?d) (sort ?ds)) \<le> ?k"
      using sorted_nth_filter_less[OF sorted_sort k] .
    then have less: "length (filter (\<lambda>x. x < ?d) ?ds) \<le> ?k"
      by (simp only: length_filter_sort)
    have "?k < length (filter (\<lambda>x. x \<le> ?d) (sort ?ds))"
      using sorted_nth_filter_le[OF sorted_sort k] .
    then have le: "?k < length (filter (\<lambda>x. x \<le> ?d) ?ds)"
      by (simp only: length_filter_sort)
    have step: "stepMinutes cd = (if Math_round (real_of_int ?d / 60000) = 0 then 60
                        else Math_round (real_of_int ?d / 60000))"
      using ne by (simp add: stepMinutes_eq Let_def)
    from median_in_diffs[OF ne] less le Math_round_bounds[of ?d] step show ?thesis
      by blast
  qed
  from positiveDiffs_nth[of cd] short main show ?thesis
    unfolding Let_def by blast
qed

theorem stepMinutes_upper_median_witness:
  "positiveDiffs [pointAt 0, pointAt 60000, pointAt 240000] = [60000, 180000] \<and>
   sort [60000, 180000 :: int] ! (length [60000, 180000 :: int] div 2) = 180000 \<and>
   stepMinutes [pointAt 0, pointAt 60000, pointAt 240000] = 3 \<and>
   positiveDiffs [pointAt 7, pointAt 7] = [] \<and> stepMinutes [pointAt 7, pointAt 7] = 60 \<and>
   length [pointAt 7] < 2 \<and> stepMinutes [pointAt 7] = 60"
  using stepMinutes_upper_median [of "[pointAt 0, pointAt 60000, pointAt 240000]"]
    stepMinutes_upper_median [of "[pointAt 7, pointAt 7]"]
    stepMinutes_upper_median [of "[pointAt 7]"]
  by (simp add: positiveDiffs_def pointAt_def Math_round_def Let_def)



section \<open>Axis ticks\<close>

text \<open>
  Adding to the hour field moves the instant by whole hours, and the even clock hours are
  the instants whose local time is a multiple of two hours.
\<close>

lemma msPerHour_pos: "0 < msPerHour"
  by (simp add: msPerHour_def)























section \<open>Day-change markers\<close>

text \<open>
  The walk leaves points of the day it last saw without a marker, and it emits its
  markers at the pairs of neighbouring points whose day keys differ.
\<close>

lemma markersLoop_same:
  "\<forall>p \<in> set ps. dayKey p = k \<Longrightarrow> markersLoop env h k (ps @ qs) = markersLoop env h k qs"
  by (induction ps) simp_all

lemma markersLoop_changes:
  "markersLoop env h (dayKey q) ps =
     map (\<lambda>(prev, p). \<lparr>marker_x = real_of_int (timestamp p) - h,
                        marker_label = formatDayLineLabel env (timestamp p)\<rparr>)
       (filter (\<lambda>(prev, p). dayKey p \<noteq> dayKey prev) (zip (q # ps) ps))"
proof (induction ps arbitrary: q)
  case Nil
  show ?case by simp
next
  case (Cons p ps)
  show ?case
  proof (cases "dayKey p = dayKey q")
    case True
    with Cons.IH[of p] show ?thesis by simp
  next
    case False
    with Cons.IH[of p] show ?thesis by (simp add: Let_def)
  qed
qed

lemma hourlyDay_facts:
  "length (hourlyDay key start) = 24 \<and> (\<forall>p \<in> set (hourlyDay key start). dayKey p = key) \<and>
   timestamp (hd (hourlyDay key start)) = start"
  by (auto simp: hourlyDay_def hd_map)

text \<open>
  C6. The markers are, in order, one for each pair of neighbouring visible points with
  different day keys, positioned \<open>stepMs / 2\<close> before the second point of the pair
  and labelled from its timestamp; there is none when all visible points share one day
  key. The visible sequence is sorted by time, so the points of one day are adjacent: a
  sequence spanning exactly two day keys with 24 points each is \<open>day1 @ day2\<close>. It
  gets exactly one marker, \<open>stepMs / 2\<close> before the timestamp of the first point of
  the second day, labelled with the capitalised short weekday, the day of the month, a
  dot and the month of that timestamp.
\<close>

theorem dayChangeMarkers_boundaries:
  "dayChangeMarkers env stepMillis visible =
     map (\<lambda>(prev, p). \<lparr>marker_x = real_of_int (timestamp p) - real_of_int stepMillis / 2,
                        marker_label = formatDayLineLabel env (timestamp p)\<rparr>)
       (filter (\<lambda>(prev, p). dayKey p \<noteq> dayKey prev) (zip visible (tl visible))) \<and>
   ((\<forall>p \<in> set visible. dayKey p = k) \<longrightarrow> dayChangeMarkers env stepMillis visible = []) \<and>
   (length day1 = 24 \<and> length day2 = 24 \<and> (\<forall>p \<in> set day1. dayKey p = k1) \<and>
    (\<forall>p \<in> set day2. dayKey p = k2) \<and> k1 \<noteq> k2 \<longrightarrow>
      dayChangeMarkers env stepMillis (day1 @ day2) =
        [\<lparr>marker_x = real_of_int (timestamp (hd day2)) - real_of_int stepMillis / 2,
          marker_label =
            capitalize (weekdayShortFormatter env (timestamp (hd day2))) @ '' ''
              @ String_nat (getDate env (timestamp (hd day2))) @ ''.''
              @ String_nat (getMonth env (timestamp (hd day2)) + 1)\<rparr>])"
proof -
  have general: "dayChangeMarkers env stepMillis visible =
     map (\<lambda>(prev, p). \<lparr>marker_x = real_of_int (timestamp p) - real_of_int stepMillis / 2,
                        marker_label = formatDayLineLabel env (timestamp p)\<rparr>)
       (filter (\<lambda>(prev, p). dayKey p \<noteq> dayKey prev) (zip visible (tl visible)))"
    by (cases visible) (simp_all add: dayChangeMarkers_def markersLoop_changes)
  have none: "dayChangeMarkers env stepMillis visible = []" if "\<forall>p \<in> set visible. dayKey p = k"
  proof (cases visible)
    case Nil
    then show ?thesis by (simp add: dayChangeMarkers_def)
  next
    case (Cons q qs)
    with that have "dayKey q = k" "\<forall>p \<in> set qs. dayKey p = k" by simp_all
    with markersLoop_same[of qs k env _ "[]"] Cons show ?thesis
      by (simp add: dayChangeMarkers_def)
  qed
  have two: "dayChangeMarkers env stepMillis (day1 @ day2) =
        [\<lparr>marker_x = real_of_int (timestamp (hd day2)) - real_of_int stepMillis / 2,
          marker_label =
            capitalize (weekdayShortFormatter env (timestamp (hd day2))) @ '' ''
              @ String_nat (getDate env (timestamp (hd day2))) @ ''.''
              @ String_nat (getMonth env (timestamp (hd day2)) + 1)\<rparr>]"
    if l1: "length day1 = 24" and l2: "length day2 = 24"
      and d1: "\<forall>p \<in> set day1. dayKey p = k1" and d2: "\<forall>p \<in> set day2. dayKey p = k2"
      and ne: "k1 \<noteq> k2"
  proof -
    from l1 obtain a as where day1: "day1 = a # as" by (cases day1) auto
    from l2 obtain b bs where day2: "day2 = b # bs" by (cases day2) auto
    from d1 day1 have a: "dayKey a = k1" "\<forall>p \<in> set as. dayKey p = k1" by simp_all
    from d2 day2 have b: "dayKey b = k2" "\<forall>p \<in> set bs. dayKey p = k2" by simp_all
    have "dayChangeMarkers env stepMillis (day1 @ day2)
          = markersLoop env (real_of_int stepMillis / 2) k1 (as @ day2)"
      using day1 a by (simp add: dayChangeMarkers_def)
    also have "\<dots> = markersLoop env (real_of_int stepMillis / 2) k1 (b # bs)"
      using a(2) day2 by (simp only: markersLoop_same)
    also have "\<dots> = \<lparr>marker_x = real_of_int (timestamp b) - real_of_int stepMillis / 2,
                       marker_label = formatDayLineLabel env (timestamp b)\<rparr>
                      # markersLoop env (real_of_int stepMillis / 2) k2 (bs @ [])"
      using b(1) ne by (simp add: Let_def)
    also have "markersLoop env (real_of_int stepMillis / 2) k2 (bs @ []) = []"
      using b(2) by (simp only: markersLoop_same) simp
    finally show ?thesis
      using day2 by (simp add: formatDayLineLabel_def Let_def)
  qed
  from general none two show ?thesis by blast
qed

theorem dayChangeMarkers_boundaries_witness:
  "length (hourlyDay ''2024-01-15'' 1705276800000) = 24 \<and>
   length (hourlyDay ''2024-01-16'' 1705363200000) = 24 \<and>
   ''2024-01-15'' \<noteq> ''2024-01-16'' \<and>
   dayChangeMarkers january2024 3600000
       (hourlyDay ''2024-01-15'' 1705276800000 @ hourlyDay ''2024-01-16'' 1705363200000)
     = [\<lparr>marker_x = 1705363200000 - 3600000 / 2, marker_label = ''Ti 16.1''\<rparr>] \<and>
   dayChangeMarkers january2024 3600000 (hourlyDay ''2024-01-15'' 1705276800000) = []"
proof -
  let ?d1 = "hourlyDay ''2024-01-15'' 1705276800000"
  let ?d2 = "hourlyDay ''2024-01-16'' 1705363200000"
  have keys: "''2024-01-15'' \<noteq> ''2024-01-16''" by simp
  have label: "capitalize (weekdayShortFormatter january2024 1705363200000) = ''Ti''"
    by code_simp
  have day: "String_nat (getDate january2024 1705363200000) = ''16''"
    by code_simp
  have month: "String_nat (getMonth january2024 1705363200000 + 1) = ''1''"
    by code_simp
  note inst = dayChangeMarkers_boundaries
    [of january2024 3600000 ?d1 "''2024-01-15''" ?d1 ?d2 "''2024-01-15''" "''2024-01-16''"]
  note f1 = hourlyDay_facts [of "''2024-01-15''" 1705276800000]
  note f2 = hourlyDay_facts [of "''2024-01-16''" 1705363200000]
  from f1 have none: "dayChangeMarkers january2024 3600000 ?d1 = []"
    using inst by blast
  from f1 f2 keys have "dayChangeMarkers january2024 3600000 (?d1 @ ?d2) =
        [\<lparr>marker_x = real_of_int (timestamp (hd ?d2)) - real_of_int 3600000 / 2,
          marker_label =
            capitalize (weekdayShortFormatter january2024 (timestamp (hd ?d2))) @ '' ''
              @ String_nat (getDate january2024 (timestamp (hd ?d2))) @ ''.''
              @ String_nat (getMonth january2024 (timestamp (hd ?d2)) + 1)\<rparr>]"
    using inst by blast
  moreover from f2 have "timestamp (hd ?d2) = 1705363200000" by blast
  ultimately have one: "dayChangeMarkers january2024 3600000 (?d1 @ ?d2) =
        [\<lparr>marker_x = 1705363200000 - 3600000 / 2, marker_label = ''Ti 16.1''\<rparr>]"
    using label day month by simp
  from f1 f2 keys one none show ?thesis by blast
qed

section \<open>Day ranker and colorer: one day of hourly points\<close>

text \<open>
  The bucket of a day key holds the points of that day in their order; \<open>ranks\<close> maps
  the timestamp of element \<open>i\<close> of the price-sorted bucket to \<open>i\<close> when the
  timestamps are distinct; and with distinct prices that \<open>i\<close> is the number of
  cheaper points of the day.
\<close>

lemma groupByDay_fold:
  "fold (\<lambda>point grouped. groupedAdd grouped point) ps g k =
     (if filter (\<lambda>p. dayKey p = k) ps = [] then g k
      else Some ((case g k of None \<Rightarrow> [] | Some b \<Rightarrow> b) @ filter (\<lambda>p. dayKey p = k) ps))"
proof (induction ps arbitrary: g)
  case Nil
  show ?case by simp
next
  case (Cons p ps)
  have step: "groupedAdd g p k =
      (if dayKey p = k then Some ((case g k of None \<Rightarrow> [] | Some b \<Rightarrow> b) @ [p]) else g k)"
    by (simp add: groupedAdd_def Let_def)
  have "fold (\<lambda>point grouped. groupedAdd grouped point) (p # ps) g k =
        fold (\<lambda>point grouped. groupedAdd grouped point) ps (groupedAdd g p) k"
    by simp
  also have "\<dots> = (if filter (\<lambda>p. dayKey p = k) ps = [] then groupedAdd g p k
      else Some ((case groupedAdd g p k of None \<Rightarrow> [] | Some b \<Rightarrow> b) @ filter (\<lambda>p. dayKey p = k) ps))"
    by (rule Cons.IH)
  also have "\<dots> = (if filter (\<lambda>p. dayKey p = k) (p # ps) = [] then g k
      else Some ((case g k of None \<Rightarrow> [] | Some b \<Rightarrow> b) @ filter (\<lambda>p. dayKey p = k) (p # ps)))"
    by (simp add: step)
  finally show ?case .
qed

lemma groupByDay_bucket:
  "groupByDay points k =
     (if filter (\<lambda>p. dayKey p = k) points = [] then None
      else Some (filter (\<lambda>p. dayKey p = k) points))"
  by (simp add: groupByDay_def groupByDay_fold)

lemma setRanks_other:
  "t \<notin> timestamp ` set ps \<Longrightarrow> setRanks ps n r t = r t"
  by (induction ps arbitrary: n r) auto

lemma setRanks_nth:
  "distinct (map timestamp ps) \<Longrightarrow> i < length ps \<Longrightarrow>
   setRanks ps n r (timestamp (ps ! i)) = Some (n + i)"
proof (induction ps arbitrary: n r i)
  case Nil
  then show ?case by simp
next
  case (Cons p ps)
  show ?case
  proof (cases i)
    case 0
    with Cons.prems show ?thesis by (simp add: setRanks_other)
  next
    case (Suc j)
    with Cons.prems Cons.IH[of j "Suc n"] show ?thesis by simp
  qed
qed

lemma filter_eq_take:
  "(\<And>j. j < length xs \<Longrightarrow> P (xs ! j) \<longleftrightarrow> j < n) \<Longrightarrow> filter P xs = take n xs"
proof (induction xs arbitrary: n)
  case Nil
  show ?case by simp
next
  case (Cons x xs)
  show ?case
  proof (cases n)
    case 0
    have "\<not> P y" if "y \<in> set (x # xs)" for y
      using that Cons.prems 0 by (metis in_set_conv_nth not_less_zero)
    then show ?thesis using 0 by (simp add: filter_empty_conv)
  next
    case (Suc m)
    have "P x" using Cons.prems[of 0] Suc by simp
    moreover have "filter P xs = take m xs"
    proof (rule Cons.IH)
      fix j assume "j < length xs"
      then show "P (xs ! j) \<longleftrightarrow> j < m" using Cons.prems[of "Suc j"] Suc by simp
    qed
    ultimately show ?thesis using Suc by simp
  qed
qed

lemma length_filter_split:
  "length (filter P xs) = length (filter (\<lambda>x. P x \<and> Q x) xs) + length (filter (\<lambda>x. P x \<and> \<not> Q x) xs)"
  by (induction xs) auto

lemma strict_sorted_map_nth:
  "sorted_wrt (<) (map f xs) \<Longrightarrow> i < j \<Longrightarrow> j < length xs \<Longrightarrow> f (xs ! i) < f (xs ! j)"
  using sorted_wrt_nth_less[of "(<)" "map f xs" i j] by simp

lemma sorted_price_index:
  assumes d: "distinct (map price b)" and i: "i < length b"
  shows "length (filter (\<lambda>q. price q < price (sort_key price b ! i)) b) = i"
proof -
  let ?s = "sort_key price b"
  have "mset (map price ?s) = mset (map price b)" by simp
  then have ds: "distinct (map price ?s)" using d by (metis mset_eq_imp_distinct_iff)
  have "sorted (map price ?s)" by simp
  with ds have strict: "sorted_wrt (<) (map price ?s)" by (simp add: strict_sorted_iff)
  have "price (?s ! j) < price (?s ! i) \<longleftrightarrow> j < i" if "j < length ?s" for j
  proof
    assume lt: "price (?s ! j) < price (?s ! i)"
    show "j < i"
    proof (rule ccontr)
      assume "\<not> j < i"
      then have "i = j \<or> i < j" by auto
      then show False
      proof
        assume "i = j" with lt show False by simp
      next
        assume "i < j"
        with strict that have "price (?s ! i) < price (?s ! j)"
          by (intro strict_sorted_map_nth)
        with lt show False by simp
      qed
    qed
  next
    assume "j < i"
    with strict i show "price (?s ! j) < price (?s ! i)"
      by (intro strict_sorted_map_nth) simp_all
  qed
  then have "filter (\<lambda>q. price q < price (?s ! i)) ?s = take i ?s"
    by (rule filter_eq_take)
  then have "length (filter (\<lambda>q. price q < price (?s ! i)) ?s) = i"
    using i by simp
  then show ?thesis by (simp add: filter_sort)
qed

lemma colours_distinct:
  "PRICE_COLORS_low \<noteq> PRICE_COLORS_mid" "PRICE_COLORS_low \<noteq> PRICE_COLORS_high"
  "PRICE_COLORS_mid \<noteq> PRICE_COLORS_high"
  by (simp_all add: PRICE_COLORS_low_def PRICE_COLORS_mid_def PRICE_COLORS_high_def)

lemma rank_is_cheaperCount:
  assumes dt: "distinct (map timestamp b)" and dp: "distinct (map price b)" and p: "p \<in> set b"
  shows "setRanks (sort_key price b) 0 Map.empty (timestamp p) = Some (cheaperCount b p)"
proof -
  let ?s = "sort_key price b"
  from p have "p \<in> set ?s" by simp
  then obtain i where i: "i < length ?s" "?s ! i = p" by (metis in_set_conv_nth)
  have "mset (map timestamp ?s) = mset (map timestamp b)" by simp
  then have "distinct (map timestamp ?s)" using dt by (metis mset_eq_imp_distinct_iff)
  then have "setRanks ?s 0 Map.empty (timestamp (?s ! i)) = Some (0 + i)"
    using i(1) by (rule setRanks_nth)
  moreover have "cheaperCount b (?s ! i) = i"
    unfolding cheaperCount_def using dp i(1) by (intro sorted_price_index) simp_all
  ultimately show ?thesis using i(2) by simp
qed

lemma colorPoint_single_day:
  assumes key: "\<forall>q \<in> set b. dayKey q = k"
    and dt: "distinct (map timestamp b)" and dp: "distinct (map price b)" and p: "p \<in> set b"
  shows "colorPoint (dayMeta pph (groupByDay b)) p =
         p\<lparr>fill := Some (tierOf (min (int (length b)) (6 * pph)) (min (int (length b)) (12 * pph))
                            (cheaperCount b p))\<rparr>"
proof -
  from key have all: "filter (\<lambda>q. dayKey q = dayKey p) b = b"
    using p by (simp add: filter_id_conv)
  from p have "b \<noteq> []" by auto
  with all have "groupByDay b (dayKey p) = Some b" by (simp add: groupByDay_bucket)
  then have meta: "dayMeta pph (groupByDay b) (dayKey p) = Some (dayMetaOf pph b)"
    by (simp add: dayMeta_def)
  have rk: "ranks (dayMetaOf pph b) (timestamp p) = Some (cheaperCount b p)"
    using rank_is_cheaperCount[OF dt dp p] by (simp add: dayMetaOf_def Let_def)
  have lim: "greenLimit (dayMetaOf pph b) = min (int (length b)) (6 * pph)"
    "yellowLimit (dayMetaOf pph b) = min (int (length b)) (12 * pph)"
    by (simp_all add: dayMetaOf_def Let_def)
  show ?thesis
    by (simp add: colorPoint_def meta rk lim tierOf_def Let_def)
qed

lemma cheaperCount_below:
  assumes dp: "distinct (map price b)"
  shows "length (filter (\<lambda>p. cheaperCount b p < g) b) = min g (length b)"
proof -
  let ?s = "sort_key price b"
  have "cheaperCount b (?s ! j) < g \<longleftrightarrow> j < g" if "j < length ?s" for j
    unfolding cheaperCount_def using sorted_price_index[OF dp, of j] that by simp
  then have "filter (\<lambda>p. cheaperCount b p < g) ?s = take g ?s"
    by (rule filter_eq_take)
  then have "length (filter (\<lambda>p. cheaperCount b p < g) ?s) = min g (length b)"
    by simp
  then show ?thesis by (simp add: filter_sort)
qed

lemma cheaperCount_between:
  assumes dp: "distinct (map price b)" and le: "g \<le> h"
  shows "length (filter (\<lambda>p. \<not> cheaperCount b p < g \<and> cheaperCount b p < h) b)
         = min h (length b) - min g (length b)"
proof -
  have "length (filter (\<lambda>p. cheaperCount b p < h) b) =
        length (filter (\<lambda>p. cheaperCount b p < h \<and> cheaperCount b p < g) b) +
        length (filter (\<lambda>p. cheaperCount b p < h \<and> \<not> cheaperCount b p < g) b)"
    by (rule length_filter_split)
  moreover have "(\<lambda>p. cheaperCount b p < h \<and> cheaperCount b p < g) = (\<lambda>p. cheaperCount b p < g)"
    using le by auto
  moreover have "(\<lambda>p. cheaperCount b p < h \<and> \<not> cheaperCount b p < g)
               = (\<lambda>p. \<not> cheaperCount b p < g \<and> cheaperCount b p < h)"
    by auto
  ultimately show ?thesis
    using cheaperCount_below[OF dp, of g] cheaperCount_below[OF dp, of h] by simp
qed

lemma cheaperCount_above:
  assumes dp: "distinct (map price b)"
  shows "length (filter (\<lambda>p. \<not> cheaperCount b p < h) b) = length b - min h (length b)"
  using sum_length_filter_compl[of "\<lambda>p. cheaperCount b p < h" b] cheaperCount_below[OF dp, of h]
  by simp

lemma hourly_nth:
  assumes "\<forall>i. Suc i < length points \<longrightarrow> timestamp (points ! Suc i) = timestamp (points ! i) + msPerHour"
  shows "i < length points \<Longrightarrow> timestamp (points ! i) = timestamp (points ! 0) + int i * msPerHour"
proof (induction i)
  case 0
  show ?case by simp
next
  case (Suc i)
  with assms have "timestamp (points ! Suc i) = timestamp (points ! i) + msPerHour" by simp
  with Suc show ?case by (simp add: algebra_simps)
qed

lemma hourly_distinct:
  assumes "\<forall>i. Suc i < length points \<longrightarrow> timestamp (points ! Suc i) = timestamp (points ! i) + msPerHour"
  shows "distinct (map timestamp points)"
proof -
  have "timestamp (points ! i) \<noteq> timestamp (points ! j)"
    if "i < length points" "j < length points" "i \<noteq> j" for i j
    using hourly_nth[OF assms that(1)] hourly_nth[OF assms that(2)] that(3) msPerHour_pos
    by simp
  then show ?thesis by (simp add: distinct_conv_nth)
qed

lemma hourly_stepMinutes:
  assumes h: "\<forall>i. Suc i < length points \<longrightarrow> timestamp (points ! Suc i) = timestamp (points ! i) + msPerHour"
    and len: "2 \<le> length points"
  shows "stepMinutes points = 60"
proof -
  let ?ds = "positiveDiffs points"
  have all: "d = msPerHour" if "d \<in> set ?ds" for d
    using that h by (auto simp: positiveDiffs_nth)
  have "timestamp (points ! Suc 0) - timestamp (points ! 0) \<in> set ?ds"
    using h len msPerHour_pos by (auto simp: positiveDiffs_nth intro!: image_eqI[where x=0])
  then have ne: "?ds \<noteq> []" by auto
  then have "sort ?ds ! (length ?ds div 2) = msPerHour"
    using median_in_diffs all by blast
  then have "Math_round (real_of_int (sort ?ds ! (length ?ds div 2)) / 60000) = 60"
    by (simp add: msPerHour_def Math_round_def)
  with ne show ?thesis by (simp add: stepMinutes_eq)
qed

lemma pointsPerHour_60: "pointsPerHour 60 = 1"
  by (simp add: pointsPerHour_def Math_round_def)

lemma hourlyDay_hourly:
  "\<forall>i. Suc i < length (hourlyDay key start) \<longrightarrow>
     timestamp (hourlyDay key start ! Suc i) = timestamp (hourlyDay key start ! i) + msPerHour"
  by (simp add: hourlyDay_def algebra_simps)

text \<open>
  C3. Take 24 points that share one day key, follow one another at 60 minutes (so their
  timestamps are pairwise distinct) and have pairwise distinct prices. Then the
  estimated interval gives \<open>pointsPerHour = 1\<close>, and the colorer, which changes
  nothing but \<open>fill\<close>, tags exactly 6 points low, exactly 6 mid and exactly 12 high.
  A point is tagged low exactly when fewer than 6 points are cheaper than it, that is
  when it is one of the 6 cheapest; mid when 6 to 11 points are cheaper; high when 12 or
  more are.
\<close>

theorem coloredData_hourly_day:
  assumes len: "length points = 24"
    and key: "\<forall>p \<in> set points. dayKey p = key"
    and hourly: "\<forall>i. Suc i < length points \<longrightarrow>
                   timestamp (points ! Suc i) = timestamp (points ! i) + msPerHour"
    and prices: "distinct (map price points)"
  shows "pointsPerHour (stepMinutes points) = 1 \<and>
    (let colored = coloredData (pointsPerHour (stepMinutes points)) points in
       length colored = 24 \<and>
       length (filter (\<lambda>p. fill p = Some PRICE_COLORS_low) colored) = 6 \<and>
       length (filter (\<lambda>p. fill p = Some PRICE_COLORS_mid) colored) = 6 \<and>
       length (filter (\<lambda>p. fill p = Some PRICE_COLORS_high) colored) = 12 \<and>
       (\<forall>i < 24.
          colored ! i = (points ! i)\<lparr>fill := fill (colored ! i)\<rparr> \<and>
          (fill (colored ! i) = Some PRICE_COLORS_low \<longleftrightarrow> cheaperCount points (points ! i) < 6) \<and>
          (fill (colored ! i) = Some PRICE_COLORS_mid \<longleftrightarrow>
             6 \<le> cheaperCount points (points ! i) \<and> cheaperCount points (points ! i) < 12) \<and>
          (fill (colored ! i) = Some PRICE_COLORS_high \<longleftrightarrow> 12 \<le> cheaperCount points (points ! i))))"
proof -
  have pph: "pointsPerHour (stepMinutes points) = 1"
    using hourly_stepMinutes[OF hourly] len by (simp add: pointsPerHour_60)
  have dt: "distinct (map timestamp points)" using hourly by (rule hourly_distinct)
  let ?tier = "\<lambda>p. tierOf 6 12 (cheaperCount points p)"
  let ?cp = "\<lambda>p. p\<lparr>fill := Some (?tier p)\<rparr>"
  have ne: "points \<noteq> []" using len by auto
  have cp: "colorPoint (dayMeta 1 (groupByDay points)) p = ?cp p" if "p \<in> set points" for p
    using colorPoint_single_day[OF key dt prices that, of 1] len by simp
  then have col: "coloredData 1 points = map ?cp points"
    using ne by (simp add: coloredData_def)
  have low: "(?tier p = PRICE_COLORS_low) \<longleftrightarrow> cheaperCount points p < 6" for p
    using colours_distinct by (auto simp: tierOf_def)
  have mid: "(?tier p = PRICE_COLORS_mid) \<longleftrightarrow>
      \<not> cheaperCount points p < 6 \<and> cheaperCount points p < 12" for p
    using colours_distinct by (auto simp: tierOf_def)
  have high: "(?tier p = PRICE_COLORS_high) \<longleftrightarrow> \<not> cheaperCount points p < 12" for p
    using colours_distinct by (auto simp: tierOf_def)
  have n_low: "length (filter (\<lambda>p. fill p = Some PRICE_COLORS_low) (map ?cp points)) = 6"
    using cheaperCount_below[OF prices, of 6] len by (simp add: filter_map comp_def low)
  have n_mid: "length (filter (\<lambda>p. fill p = Some PRICE_COLORS_mid) (map ?cp points)) = 6"
    using cheaperCount_between[OF prices, of 6 12] len by (simp add: filter_map comp_def mid)
  have n_high: "length (filter (\<lambda>p. fill p = Some PRICE_COLORS_high) (map ?cp points)) = 12"
    using cheaperCount_above[OF prices, of 12] len by (simp add: filter_map comp_def high)
  have each: "map ?cp points ! i = (points ! i)\<lparr>fill := fill (map ?cp points ! i)\<rparr> \<and>
      (fill (map ?cp points ! i) = Some PRICE_COLORS_low \<longleftrightarrow> cheaperCount points (points ! i) < 6) \<and>
      (fill (map ?cp points ! i) = Some PRICE_COLORS_mid \<longleftrightarrow>
         6 \<le> cheaperCount points (points ! i) \<and> cheaperCount points (points ! i) < 12) \<and>
      (fill (map ?cp points ! i) = Some PRICE_COLORS_high \<longleftrightarrow> 12 \<le> cheaperCount points (points ! i))"
    if "i < 24" for i
    using that len low[of "points ! i"] mid[of "points ! i"] high[of "points ! i"]
    by (simp add: not_less)
  from pph col len n_low n_mid n_high each show ?thesis
    by (simp add: Let_def)
qed

theorem coloredData_hourly_day_witness:
  "length (hourlyDay ''2024-01-15'' 1705276800000) = 24 \<and>
   distinct (map price (hourlyDay ''2024-01-15'' 1705276800000)) \<and>
   pointsPerHour (stepMinutes (hourlyDay ''2024-01-15'' 1705276800000)) = 1 \<and>
   length (filter (\<lambda>p. fill p = Some PRICE_COLORS_low)
      (coloredData 1 (hourlyDay ''2024-01-15'' 1705276800000))) = 6 \<and>
   length (filter (\<lambda>p. fill p = Some PRICE_COLORS_mid)
      (coloredData 1 (hourlyDay ''2024-01-15'' 1705276800000))) = 6 \<and>
   length (filter (\<lambda>p. fill p = Some PRICE_COLORS_high)
      (coloredData 1 (hourlyDay ''2024-01-15'' 1705276800000))) = 12 \<and>
   cheaperCount (hourlyDay ''2024-01-15'' 1705276800000) (hourlyDay ''2024-01-15'' 1705276800000 ! 7) = 1 \<and>
   fill (coloredData 1 (hourlyDay ''2024-01-15'' 1705276800000) ! 7) = Some PRICE_COLORS_low \<and>
   cheaperCount (hourlyDay ''2024-01-15'' 1705276800000) (hourlyDay ''2024-01-15'' 1705276800000 ! 3) = 21 \<and>
   fill (coloredData 1 (hourlyDay ''2024-01-15'' 1705276800000) ! 3) = Some PRICE_COLORS_high"
proof -
  let ?day = "hourlyDay ''2024-01-15'' 1705276800000"
  have len: "length ?day = 24" using hourlyDay_facts by blast
  have key: "\<forall>p \<in> set ?day. dayKey p = ''2024-01-15''" using hourlyDay_facts by blast
  have prices: "distinct (map price ?day)" by code_simp
  have c7: "cheaperCount ?day (?day ! 7) = 1" by code_simp
  have c3: "cheaperCount ?day (?day ! 3) = 21" by code_simp
  note inst = coloredData_hourly_day [OF len key hourlyDay_hourly prices]
  from inst have pph: "pointsPerHour (stepMinutes ?day) = 1" by blast
  from inst have "length (coloredData 1 ?day) = 24 \<and>
       length (filter (\<lambda>p. fill p = Some PRICE_COLORS_low) (coloredData 1 ?day)) = 6 \<and>
       length (filter (\<lambda>p. fill p = Some PRICE_COLORS_mid) (coloredData 1 ?day)) = 6 \<and>
       length (filter (\<lambda>p. fill p = Some PRICE_COLORS_high) (coloredData 1 ?day)) = 12 \<and>
       (\<forall>i < 24.
          coloredData 1 ?day ! i = (?day ! i)\<lparr>fill := fill (coloredData 1 ?day ! i)\<rparr> \<and>
          (fill (coloredData 1 ?day ! i) = Some PRICE_COLORS_low \<longleftrightarrow> cheaperCount ?day (?day ! i) < 6) \<and>
          (fill (coloredData 1 ?day ! i) = Some PRICE_COLORS_mid \<longleftrightarrow>
             6 \<le> cheaperCount ?day (?day ! i) \<and> cheaperCount ?day (?day ! i) < 12) \<and>
          (fill (coloredData 1 ?day ! i) = Some PRICE_COLORS_high \<longleftrightarrow> 12 \<le> cheaperCount ?day (?day ! i)))"
    unfolding pph Let_def by blast
  then have counts: "length (filter (\<lambda>p. fill p = Some PRICE_COLORS_low) (coloredData 1 ?day)) = 6"
      "length (filter (\<lambda>p. fill p = Some PRICE_COLORS_mid) (coloredData 1 ?day)) = 6"
      "length (filter (\<lambda>p. fill p = Some PRICE_COLORS_high) (coloredData 1 ?day)) = 12"
    and f7: "fill (coloredData 1 ?day ! 7) = Some PRICE_COLORS_low \<longleftrightarrow> cheaperCount ?day (?day ! 7) < 6"
    and f3: "fill (coloredData 1 ?day ! 3) = Some PRICE_COLORS_high \<longleftrightarrow> 12 \<le> cheaperCount ?day (?day ! 3)"
    by simp_all
  from f7 c7 have l7: "fill (coloredData 1 ?day ! 7) = Some PRICE_COLORS_low" by simp
  from f3 c3 have h3: "fill (coloredData 1 ?day ! 3) = Some PRICE_COLORS_high" by simp
  from len prices pph counts c7 l7 c3 h3 show ?thesis by blast
qed

section \<open>Sortedness through the pipeline\<close>

text \<open>
  A record yields a point only when it has a non-empty timestamp string that parses and
  a selected price; the colorer changes nothing but \<open>fill\<close>.
\<close>

lemma normalize_Some:
  assumes "normalize env useTax m item = Some p"
  shows "\<exists>s v. DateTime item = Some s \<and> s \<noteq> [] \<and> Date_getTime env s = Some (timestamp p) \<and>
               selectedPrice useTax item = Some v \<and> price p = v * m \<and> fill p = None"
  using assms
  by (auto simp: normalize_def selectedPrice_def split: option.splits if_splits)

lemma normalize_None:
  "DateTime item = None \<or> DateTime item = Some [] \<or> selectedPrice useTax item = None \<or>
   (\<exists>s. DateTime item = Some s \<and> Date_getTime env s = None)
   \<Longrightarrow> normalize env useTax m item = None"
  by (cases useTax) (auto simp: normalize_def selectedPrice_def split: option.splits)

lemma colorPoint_fill: "colorPoint metas p = p\<lparr>fill := fill (colorPoint metas p)\<rparr>"
  by (simp add: colorPoint_def Let_def)

lemma coloredData_nth:
  "length (coloredData pph points) = length points \<and>
   (\<forall>i < length points. coloredData pph points ! i = (points ! i)\<lparr>fill := fill (coloredData pph points ! i)\<rparr>)"
proof (cases "points = []")
  case True
  then show ?thesis by (simp add: coloredData_def)
next
  case False
  then show ?thesis using colorPoint_fill by (simp add: coloredData_def)
qed

lemma coloredData_timestamps: "map timestamp (coloredData pph points) = map timestamp points"
proof (rule nth_equalityI)
  show "length (map timestamp (coloredData pph points)) = length (map timestamp points)"
    using coloredData_nth[of pph points] by simp
next
  fix i assume "i < length (map timestamp (coloredData pph points))"
  then have i: "i < length points" using coloredData_nth[of pph points] by simp
  then have "coloredData pph points ! i = (points ! i)\<lparr>fill := fill (coloredData pph points ! i)\<rparr>"
    using coloredData_nth[of pph points] by blast
  then have "timestamp (coloredData pph points ! i) = timestamp (points ! i)"
    by (metis ChartDatum.select_convs(4) ChartDatum.surjective ChartDatum.update_convs(6))
  with i show "map timestamp (coloredData pph points) ! i = map timestamp points ! i"
    using coloredData_nth[of pph points] by simp
qed

text \<open>
  C5. For every sequence of raw records and every choice of options, the normalizer's
  output is sorted non-decreasing by timestamp, and each of its points comes from a
  record of the input that has a timestamp (which parsed to the point's timestamp) and a
  selected price (which, times the multiplier, is the point's price): a record with a
  missing timestamp or a null selected price yields no point. The colorer keeps length
  and order and changes only \<open>fill\<close>, and the visibility filter keeps a subsequence,
  so the colored and the visible sequence are sorted by timestamp as well.
\<close>

theorem pipeline_sorted:
  "(let points = chartData env useTax valueMultiplier data;
        colored = coloredData pph points;
        visible = visibleData showPast now stepMillis colored
    in sorted (map timestamp points) \<and>
       (\<forall>p \<in> set points. \<exists>item \<in> set data. \<exists>s v.
          DateTime item = Some s \<and> s \<noteq> [] \<and> Date_getTime env s = Some (timestamp p) \<and>
          selectedPrice useTax item = Some v \<and> price p = v * valueMultiplier) \<and>
       length points = length (filter (\<lambda>item. normalize env useTax valueMultiplier item \<noteq> None) data) \<and>
       length colored = length points \<and>
       (\<forall>i < length points. colored ! i = (points ! i)\<lparr>fill := fill (colored ! i)\<rparr>) \<and>
       sorted (map timestamp colored) \<and>
       subseq visible colored \<and>
       sorted (map timestamp visible)) \<and>
   (DateTime item = None \<or> selectedPrice useTax item = None
      \<longrightarrow> normalize env useTax valueMultiplier item = None)"
proof -
  let ?points = "chartData env useTax valueMultiplier data"
  let ?colored = "coloredData pph ?points"
  let ?visible = "visibleData showPast now stepMillis ?colored"
  have s1: "sorted (map timestamp ?points)" by (simp add: chartData_def)
  have valid: "\<exists>item \<in> set data. \<exists>s v.
          DateTime item = Some s \<and> s \<noteq> [] \<and> Date_getTime env s = Some (timestamp p) \<and>
          selectedPrice useTax item = Some v \<and> price p = v * valueMultiplier"
    if "p \<in> set ?points" for p
  proof -
    from that obtain item where "item \<in> set data" "normalize env useTax valueMultiplier item = Some p"
      by (auto simp: chartData_def map_filter_def)
    with normalize_Some[of env useTax valueMultiplier item p] show ?thesis by blast
  qed
  have len: "length ?points = length (filter (\<lambda>item. normalize env useTax valueMultiplier item \<noteq> None) data)"
    by (simp add: chartData_def map_filter_def)
  have s2: "sorted (map timestamp ?colored)" using s1 by (simp only: coloredData_timestamps)
  have sub: "subseq ?visible ?colored" by (simp add: visibleData_def)
  have s3: "sorted (map timestamp ?visible)"
    using s2 by (simp add: visibleData_def sorted_filter)
  have none: "DateTime item = None \<or> selectedPrice useTax item = None
      \<longrightarrow> normalize env useTax valueMultiplier item = None"
    using normalize_None[of item useTax env valueMultiplier] by blast
  from s1 valid len coloredData_nth[of pph ?points] s2 sub s3 none show ?thesis
    unfolding Let_def by blast
qed

theorem pipeline_sorted_witness:
  "map timestamp (chartData january2024 True 100 exampleRecords) = [1705356000000, 1705363200000] \<and>
   map price (chartData january2024 True 100 exampleRecords) = [3.72, 6.2] \<and>
   DateTime (exampleRecords ! 1) = None \<and> selectedPrice True (exampleRecords ! 2) = None \<and>
   normalize january2024 True 100 (exampleRecords ! 1) = None \<and>
   normalize january2024 True 100 (exampleRecords ! 2) = None \<and>
   sorted (map timestamp (chartData january2024 True 100 exampleRecords)) \<and>
   sorted (map timestamp (coloredData 1 (chartData january2024 True 100 exampleRecords))) \<and>
   map timestamp (visibleData False 1705361000000 3600000
      (coloredData 1 (chartData january2024 True 100 exampleRecords))) = [1705363200000] \<and>
   sorted (map timestamp (visibleData False 1705361000000 3600000
      (coloredData 1 (chartData january2024 True 100 exampleRecords))))"
proof -
  let ?points = "chartData january2024 True 100 exampleRecords"
  have ts: "map timestamp ?points = [1705356000000, 1705363200000]" by code_simp
  have ps: "map price ?points = [3.72, 6.2]" by code_simp
  have r1: "DateTime (exampleRecords ! 1) = None" by code_simp
  have r2: "selectedPrice True (exampleRecords ! 2) = None" by code_simp
  have vis: "map timestamp (visibleData False 1705361000000 3600000 (coloredData 1 ?points))
      = [1705363200000]" by code_simp
  note inst1 = pipeline_sorted [of january2024 True 100 exampleRecords 1 False 1705361000000 3600000
      "exampleRecords ! 1"]
  note inst2 = pipeline_sorted [of january2024 True 100 exampleRecords 1 False 1705361000000 3600000
      "exampleRecords ! 2"]
  from inst1 r1 have n1: "normalize january2024 True 100 (exampleRecords ! 1) = None" by blast
  from inst2 r2 have n2: "normalize january2024 True 100 (exampleRecords ! 2) = None" by blast
  from inst1 have "sorted (map timestamp ?points) \<and>
      sorted (map timestamp (coloredData 1 ?points)) \<and>
      sorted (map timestamp (visibleData False 1705361000000 3600000 (coloredData 1 ?points)))"
    unfolding Let_def by blast
  with ts ps r1 r2 n1 n2 vis show ?thesis by blast
qed

section \<open>The proxy route\<close>













end
